theory Spec2Isabelle
  imports Main "HOL-Library.Sublist"
begin

datatype exn =
    ExpenseError string
  | JSONDecodeError string
  | KeyError string
  | AttributeError string
  | APIError string
  | OtherException string

fun is_ExpenseError :: "exn \<Rightarrow> bool" where
  "is_ExpenseError (ExpenseError m) = True"
| "is_ExpenseError e = False"

fun join :: "string \<Rightarrow> string list \<Rightarrow> string" where
  "join sep [] = []"
| "join sep [x] = x"
| "join sep (x # y # ys) = x @ sep @ join sep (y # ys)"

definition is_digit :: "char \<Rightarrow> bool" where
  "is_digit c = (c \<in> set ''0123456789'')"

definition digit_val :: "char \<Rightarrow> nat" where
  "digit_val c = of_char c - 48"

definition digit_char :: "nat \<Rightarrow> char" where
  "digit_char d = ''0123456789'' ! d"

definition int_of_digits :: "string \<Rightarrow> nat" where
  "int_of_digits ds = foldl (\<lambda>a c. 10 * a + digit_val c) 0 ds"

fun show_nat :: "nat \<Rightarrow> string" where
  "show_nat n =
     (if n < 10 then [digit_char n] else show_nat (n div 10) @ [digit_char (n mod 10)])"

declare show_nat.simps [simp del]

definition show_int :: "int \<Rightarrow> string" where
  "show_int i = (if i < 0 then ''-'' @ show_nat (nat (- i)) else show_nat (nat i))"

definition is_space :: "char \<Rightarrow> bool" where
  "is_space c =
     (c \<in> set [CHR 0x09, CHR 0x0A, CHR 0x0B, CHR 0x0C, CHR 0x0D, CHR 0x1C, CHR 0x1D,
                CHR 0x1E, CHR 0x1F, CHR 0x20, CHR 0x85, CHR 0xA0])"

definition strip :: "string \<Rightarrow> string" where
  "strip s = rev (dropWhile is_space (rev (dropWhile is_space s)))"

definition lower :: "char \<Rightarrow> char" where
  "lower c =
     (case map_of (zip ''ABCDEFGHIJKLMNOPQRSTUVWXYZ'' ''abcdefghijklmnopqrstuvwxyz'') c of
        Some l \<Rightarrow> l
      | None \<Rightarrow> c)"


datatype json =
    JNull
  | JBool bool
  | JInt int
  | JFloat bool string
  | JString string
  | JArray "json list"
  | JObject "(string \<times> json) list"

fun truthy :: "json \<Rightarrow> bool" where
  "truthy JNull = False"
| "truthy (JBool b) = b"
| "truthy (JInt n) = (n \<noteq> 0)"
| "truthy (JFloat nonzero r) = nonzero"
| "truthy (JString s) = (s \<noteq> [])"
| "truthy (JArray xs) = (xs \<noteq> [])"
| "truthy (JObject kvs) = (kvs \<noteq> [])"

definition printable :: "char \<Rightarrow> bool" where
  "printable c =
     (let n = (of_char c :: nat)
      in (0x20 \<le> n \<and> n < 0x7F) \<or> (0xA1 \<le> n \<and> n \<noteq> 0xAD))"

definition hex2 :: "char \<Rightarrow> string" where
  "hex2 c =
     (let n = (of_char c :: nat)
      in [''0123456789abcdef'' ! (n div 16), ''0123456789abcdef'' ! (n mod 16)])"

definition repr_char :: "char \<Rightarrow> char \<Rightarrow> string" where
  "repr_char quote c =
     (if c = quote \<or> c = CHR 0x5C then [CHR 0x5C, c]
      else if c = CHR 0x09 then [CHR 0x5C, CHR ''t'']
      else if c = CHR 0x0A then [CHR 0x5C, CHR ''n'']
      else if c = CHR 0x0D then [CHR 0x5C, CHR ''r'']
      else if \<not> printable c then [CHR 0x5C, CHR ''x''] @ hex2 c
      else [c])"

definition repr_str :: "string \<Rightarrow> string" where
  "repr_str s =
     (let quote = (if CHR 0x27 \<in> set s \<and> CHR 0x22 \<notin> set s then CHR 0x22 else CHR 0x27)
      in [quote] @ concat (map (repr_char quote) s) @ [quote])"

fun py_repr :: "json \<Rightarrow> string" where
  "py_repr JNull = ''None''"
| "py_repr (JBool b) = (if b then ''True'' else ''False'')"
| "py_repr (JInt n) = show_int n"
| "py_repr (JFloat nonzero r) = r"
| "py_repr (JString s) = repr_str s"
| "py_repr (JArray xs) = ''['' @ join '', '' (map py_repr xs) @ '']''"
| "py_repr (JObject kvs) =
     ''{'' @ join '', '' (map (\<lambda>(k, v). repr_str k @ '': '' @ py_repr v) kvs) @ ''}''"

fun py_str :: "json \<Rightarrow> string" where
  "py_str (JString s) = s"
| "py_str v = py_repr v"

definition validate_field :: "json \<Rightarrow> string \<Rightarrow> exn + string" where
  "validate_field v field_name =
     (if \<not> truthy v \<or> strip (py_str v) = []
      then Inl (ExpenseError (''El campo '' @ [CHR 0x27] @ field_name @ [CHR 0x27] @ '' es requerido''))
      else Inr (strip (py_str v)))"


subsection \<open>strptime\<close>

definition re_d :: "string \<Rightarrow> (nat \<times> string) list" where
  "re_d s =
     (case s of
        c1 # c2 # r \<Rightarrow>
          (if c1 = CHR ''3'' \<and> c2 \<in> set ''01'' then [(30 + digit_val c2, r)] else []) @
          (if c1 \<in> set ''12'' \<and> is_digit c2 then [(10 * digit_val c1 + digit_val c2, r)] else []) @
          (if c1 = CHR ''0'' \<and> c2 \<in> set ''123456789'' then [(digit_val c2, r)] else [])
      | _ \<Rightarrow> []) @
     (case s of
        c1 # r \<Rightarrow> (if c1 \<in> set ''123456789'' then [(digit_val c1, r)] else [])
      | [] \<Rightarrow> []) @
     (case s of
        c1 # c2 # r \<Rightarrow>
          (if c1 = CHR '' '' \<and> c2 \<in> set ''123456789'' then [(digit_val c2, r)] else [])
      | _ \<Rightarrow> [])"

definition re_m :: "string \<Rightarrow> (nat \<times> string) list" where
  "re_m s =
     (case s of
        c1 # c2 # r \<Rightarrow>
          (if c1 = CHR ''1'' \<and> c2 \<in> set ''012'' then [(10 + digit_val c2, r)] else []) @
          (if c1 = CHR ''0'' \<and> c2 \<in> set ''123456789'' then [(digit_val c2, r)] else [])
      | _ \<Rightarrow> []) @
     (case s of
        c1 # r \<Rightarrow> (if c1 \<in> set ''123456789'' then [(digit_val c1, r)] else [])
      | [] \<Rightarrow> [])"

definition re_Y :: "string \<Rightarrow> (nat \<times> string) list" where
  "re_Y s =
     (case s of
        c1 # c2 # c3 # c4 # r \<Rightarrow>
          (if is_digit c1 \<and> is_digit c2 \<and> is_digit c3 \<and> is_digit c4
           then [(int_of_digits [c1, c2, c3, c4], r)] else [])
      | _ \<Rightarrow> [])"

definition re_lit :: "char \<Rightarrow> string \<Rightarrow> string list" where
  "re_lit c s = (case s of x # r \<Rightarrow> (if x = c then [r] else []) | [] \<Rightarrow> [])"

definition re_match :: "string \<Rightarrow> ((nat \<times> nat \<times> nat) \<times> string) list" where
  "re_match s =
     concat (map (\<lambda>(d, r1).
       concat (map (\<lambda>r2.
         concat (map (\<lambda>(m, r3).
           concat (map (\<lambda>r4.
             map (\<lambda>(y, r5). ((y, m, d), r5)) (re_Y r4))
           (re_lit CHR ''-'' r3)))
         (re_m r2)))
       (re_lit CHR ''-'' r1)))
     (re_d s))"

definition is_leap :: "nat \<Rightarrow> bool" where
  "is_leap y = (y mod 4 = 0 \<and> (y mod 100 \<noteq> 0 \<or> y mod 400 = 0))"

definition days_in_month :: "nat \<Rightarrow> nat \<Rightarrow> nat" where
  "days_in_month y m =
     (if m = 2 then (if is_leap y then 29 else 28)
      else if m \<in> {4, 6, 9, 11} then 30 else 31)"

definition valid_date :: "nat \<Rightarrow> nat \<Rightarrow> nat \<Rightarrow> bool" where
  "valid_date y m d = (1 \<le> y \<and> y \<le> 9999 \<and> 1 \<le> m \<and> m \<le> 12 \<and> 1 \<le> d \<and> d \<le> days_in_month y m)"

definition strptime :: "string \<Rightarrow> (nat \<times> nat \<times> nat) option" where
  "strptime s =
     (case re_match s of
        [] \<Rightarrow> None
      | ((y, m, d), rest) # _ \<Rightarrow>
          if rest \<noteq> [] then None
          else if valid_date y m d then Some (y, m, d)
          else None)"

definition validate_date :: "string \<Rightarrow> exn + string" where
  "validate_date date_str =
     (case strptime date_str of
        Some parsed \<Rightarrow> Inr date_str
      | None \<Rightarrow>
          Inl (ExpenseError (''Fecha inv'' @ [CHR 0xE1] @ ''lida: '' @ date_str
                               @ ''. Use formato DD-MM-YYYY'')))"

subsection \<open>Decimal\<close>

datatype decimal = Finite bool nat int | Infinity bool | NaN

definition parse_exponent :: "string \<Rightarrow> int option" where
  "parse_exponent s =
     (case s of
        [] \<Rightarrow> Some 0
      | c # r \<Rightarrow>
          if lower c \<noteq> CHR ''e'' then None
          else
            (let (neg, ds) =
               (case r of
                  x # r' \<Rightarrow>
                    if x = CHR ''-'' then (True, r')
                    else if x = CHR ''+'' then (False, r')
                    else (False, r)
                | [] \<Rightarrow> (False, []))
             in if ds \<noteq> [] \<and> list_all is_digit ds
                then Some (if neg then - int (int_of_digits ds) else int (int_of_digits ds))
                else None))"

definition parse_finite :: "bool \<Rightarrow> string \<Rightarrow> decimal option" where
  "parse_finite sg s =
     (let ip = takeWhile is_digit s;
          r1 = dropWhile is_digit s;
          (fp, r2) =
            (case r1 of
               c # r \<Rightarrow>
                 if c = CHR ''.'' then (takeWhile is_digit r, dropWhile is_digit r)
                 else ([], r1)
             | [] \<Rightarrow> ([], []))
      in if ip = [] \<and> fp = [] then None
         else
           (case parse_exponent r2 of
              None \<Rightarrow> None
            | Some e \<Rightarrow> Some (Finite sg (int_of_digits (ip @ fp)) (e - int (length fp)))))"

definition is_nan_literal :: "string \<Rightarrow> bool" where
  "is_nan_literal l =
     ((take 3 l = ''nan'' \<and> list_all is_digit (drop 3 l)) \<or>
      (take 4 l = ''snan'' \<and> list_all is_digit (drop 4 l)))"

definition Decimal :: "string \<Rightarrow> decimal option" where
  "Decimal v =
     (let s = filter (\<lambda>c. c \<noteq> CHR ''_'') (strip v);
          (sg, r) =
            (case s of
               c # t \<Rightarrow>
                 if c = CHR ''-'' then (True, t)
                 else if c = CHR ''+'' then (False, t)
                 else (False, s)
             | [] \<Rightarrow> (False, []));
          l = map lower r
      in if l = ''inf'' \<or> l = ''infinity'' then Some (Infinity sg)
         else if is_nan_literal l then Some NaN
         else parse_finite sg r)"

fun le_zero :: "decimal \<Rightarrow> bool option" where
  "le_zero (Finite sg c e) = Some (sg \<or> c = 0)"
| "le_zero (Infinity sg) = Some sg"
| "le_zero NaN = None"

definition quantize2 :: "nat \<Rightarrow> int \<Rightarrow> nat" where
  "quantize2 c e =
     (if - 2 \<le> e then c * 10 ^ nat (e + 2)
      else
        (let p = 10 ^ nat (- 2 - e); q = c div p; r = c mod p
         in if p < 2 * r \<or> (2 * r = p \<and> odd q) then q + 1 else q))"

fun format_2f :: "decimal \<Rightarrow> string" where
  "format_2f (Finite sg c e) =
     (let q = quantize2 c e
      in (if sg then ''-'' else '''') @ show_nat (q div 100) @ ''.''
           @ [digit_char (q mod 100 div 10), digit_char (q mod 10)])"
| "format_2f (Infinity sg) = (if sg then ''-'' else '''') @ ''Infinity''"
| "format_2f NaN = ''NaN''"

definition validate_amount :: "string \<Rightarrow> exn + string" where
  "validate_amount amount =
     (case Decimal (map (\<lambda>c. if c = CHR '','' then CHR ''.'' else c) amount) of
        None \<Rightarrow> Inl (ExpenseError (''Monto inv'' @ [CHR 0xE1] @ ''lido: '' @ amount))
      | Some decimal_amount \<Rightarrow>
          (case le_zero decimal_amount of
             None \<Rightarrow> Inl (ExpenseError (''Monto inv'' @ [CHR 0xE1] @ ''lido: '' @ amount))
           | Some True \<Rightarrow> Inl (ExpenseError ''El monto debe ser mayor a cero'')
           | Some False \<Rightarrow> Inr (format_2f decimal_amount)))"

definition VALID_CATEGORIES :: "string list" where
  "VALID_CATEGORIES =
    [''Criptomonedas'',
     ''Fintual'',
     ''Agua'',
     ''Arriendo'',
     ''Gasto Com'' @ [CHR 0xFA] @ ''n'',
     ''Internet'',
     ''Luz'',
     ''Almuerzo'',
     ''Comision BC'',
     ''Familia'',
     ''Farmacia'',
     ''Metro'',
     ''Otros'',
     ''Recreacional'',
     ''Regalos'',
     ''Ropa'',
     ''Supermercado'',
     ''Transporte'',
     ''Vacaciones'',
     ''Apps'',
     ''Eventos'',
     ''Electronica'',
     ''Hogar'',
     ''Limpieza'',
     ''Ingreso'']"

definition validate_category :: "string \<Rightarrow> exn + string" where
  "validate_category category =
     (if category \<notin> set VALID_CATEGORIES
      then Inl (ExpenseError
             (''Categor'' @ [CHR 0xED] @ ''a inv'' @ [CHR 0xE1] @ ''lida. Opciones: ''
                @ join '', '' VALID_CATEGORIES))
      else Inr category)"

subsection \<open>parse_payload\<close>

definition and_then :: "exn + 'a \<Rightarrow> ('a \<Rightarrow> exn + 'b) \<Rightarrow> exn + 'b" where
  "and_then r f = (case r of Inl e \<Rightarrow> Inl e | Inr x \<Rightarrow> f x)"

fun type_name :: "json \<Rightarrow> string" where
  "type_name JNull = ''NoneType''"
| "type_name (JBool b) = ''bool''"
| "type_name (JInt n) = ''int''"
| "type_name (JFloat nonzero r) = ''float''"
| "type_name (JString s) = ''str''"
| "type_name (JArray xs) = ''list''"
| "type_name (JObject kvs) = ''dict''"

fun py_get :: "json \<Rightarrow> string \<Rightarrow> json \<Rightarrow> exn + json" where
  "py_get (JObject kvs) k dflt = Inr (case map_of kvs k of Some v \<Rightarrow> v | None \<Rightarrow> dflt)"
| "py_get v k dflt =
     Inl (AttributeError ([CHR 0x27] @ type_name v @ [CHR 0x27] @ '' object has no attribute ''
                            @ [CHR 0x27] @ ''get'' @ [CHR 0x27]))"

definition payload_body :: "(string \<Rightarrow> exn + json) \<Rightarrow> json \<Rightarrow> exn + json" where
  "payload_body json_loads event =
     and_then (py_get event ''body'' JNull) (\<lambda>b.
       case b of
         JString s \<Rightarrow> json_loads s
       | _ \<Rightarrow> py_get event ''body'' event)"

record expense =
  date :: string
  description :: string
  category :: string
  amount :: string
  account :: string

definition payload_fields :: "json \<Rightarrow> exn + expense" where
  "payload_fields b =
     and_then (py_get b ''date'' JNull) (\<lambda>v1.
     and_then (validate_field v1 ''date'') (\<lambda>s1.
     and_then (validate_date s1) (\<lambda>r1.
     and_then (py_get b ''description'' JNull) (\<lambda>v2.
     and_then (validate_field v2 ''description'') (\<lambda>r2.
     and_then (py_get b ''category'' JNull) (\<lambda>v3.
     and_then (validate_field v3 ''category'') (\<lambda>s3.
     and_then (validate_category s3) (\<lambda>r3.
     and_then (py_get b ''amount'' JNull) (\<lambda>v4.
     and_then (validate_field v4 ''amount'') (\<lambda>s4.
     and_then (validate_amount s4) (\<lambda>r4.
     and_then (py_get b ''account'' JNull) (\<lambda>v5.
     and_then (validate_field v5 ''account'') (\<lambda>r5.
       Inr \<lparr>date = r1, description = r2, category = r3, amount = r4, account = r5\<rparr>
     )))))))))))))"

definition parse_payload :: "(string \<Rightarrow> exn + json) \<Rightarrow> json \<Rightarrow> exn + expense" where
  "parse_payload json_loads event =
     (case and_then (payload_body json_loads event) payload_fields of
        Inl (JSONDecodeError m) \<Rightarrow> Inl (ExpenseError (''Payload inv'' @ [CHR 0xE1] @ ''lido: '' @ m))
      | Inl (KeyError m) \<Rightarrow> Inl (ExpenseError (''Payload inv'' @ [CHR 0xE1] @ ''lido: '' @ m))
      | r \<Rightarrow> r)"

subsection \<open>append_to_sheet\<close>

datatype cell_value = Text string | Number string

datatype call = Authorize | OpenWorksheet | GetAllValues | ToFloat | Update string

record sheet =
  cells :: "string \<rightharpoonup> cell_value"
  all_values :: "string list list"
  fault :: "call \<Rightarrow> exn option"

fun exn_str :: "exn \<Rightarrow> string" where
  "exn_str (ExpenseError m) = m"
| "exn_str (JSONDecodeError m) = m"
| "exn_str (KeyError m) = m"
| "exn_str (AttributeError m) = m"
| "exn_str (APIError m) = m"
| "exn_str (OtherException m) = m"

fun wrap_error :: "exn \<Rightarrow> exn" where
  "wrap_error (APIError m) = ExpenseError (''Error al conectar con Google Sheets: '' @ m)"
| "wrap_error e = ExpenseError (''Error al insertar datos: '' @ exn_str e)"

fun update_cells :: "sheet \<Rightarrow> (string \<times> cell_value) list \<Rightarrow> nat \<Rightarrow> sheet \<times> exn option" where
  "update_cells w [] next_row = (w, None)"
| "update_cells w ((col, v) # rest) next_row =
     (let cell = col @ show_nat next_row
      in case fault w (Update cell) of
           Some e \<Rightarrow> (w, Some e)
         | None \<Rightarrow> update_cells (w\<lparr>cells := (cells w)(cell \<mapsto> v)\<rparr>) rest next_row)"

definition column_mapping :: "expense \<Rightarrow> (string \<times> cell_value) list" where
  "column_mapping e =
     [(''A'', Text (date e)),
      (''C'', Text (description e)),
      (''D'', Text (category e)),
      (''G'', Number (amount e)),
      (''H'', Text (account e))]"

definition next_row :: "sheet \<Rightarrow> nat" where
  "next_row w = length (all_values w) + 1"

definition append_to_sheet :: "string \<Rightarrow> sheet \<Rightarrow> expense \<Rightarrow> sheet \<times> (exn + string)" where
  "append_to_sheet WORKSHEET_NAME w e =
     (case fault w Authorize of
        Some x \<Rightarrow> (w, Inl (wrap_error x))
      | None \<Rightarrow>
     (case fault w OpenWorksheet of
        Some x \<Rightarrow> (w, Inl (wrap_error x))
      | None \<Rightarrow>
     (case fault w GetAllValues of
        Some x \<Rightarrow> (w, Inl (wrap_error x))
      | None \<Rightarrow>
     (case fault w ToFloat of
        Some x \<Rightarrow> (w, Inl (wrap_error x))
      | None \<Rightarrow>
     (case update_cells w (column_mapping e) (next_row w) of
        (w', Some x) \<Rightarrow> (w', Inl (wrap_error x))
      | (w', None) \<Rightarrow>
          (w', Inr (WORKSHEET_NAME @ ''!A'' @ show_nat (next_row w) @ '':H''
                      @ show_nat (next_row w))))))))"

subsection \<open>create_response and lambda_handler\<close>

datatype jtext = JS string | JD "(string \<times> jtext) list"

definition json_escape :: "char \<Rightarrow> string" where
  "json_escape c =
     (if c = CHR 0x22 then [CHR 0x5C, CHR 0x22]
      else if c = CHR 0x5C then [CHR 0x5C, CHR 0x5C]
      else if c = CHR 0x0A then [CHR 0x5C, CHR ''n'']
      else if c = CHR 0x0D then [CHR 0x5C, CHR ''r'']
      else if c = CHR 0x09 then [CHR 0x5C, CHR ''t'']
      else if c = CHR 0x08 then [CHR 0x5C, CHR ''b'']
      else if c = CHR 0x0C then [CHR 0x5C, CHR ''f'']
      else if (of_char c :: nat) < 0x20 then [CHR 0x5C, CHR ''u'', CHR ''0'', CHR ''0''] @ hex2 c
      else [c])"

definition dumps_str :: "string \<Rightarrow> string" where
  "dumps_str s = [CHR 0x22] @ concat (map json_escape s) @ [CHR 0x22]"

fun json_dumps :: "jtext \<Rightarrow> string" where
  "json_dumps (JS s) = dumps_str s"
| "json_dumps (JD kvs) =
     ''{'' @ join '', '' (map (\<lambda>(k, v). dumps_str k @ '': '' @ json_dumps v) kvs) @ ''}''"

record response =
  statusCode :: nat
  headers :: "(string \<times> string) list"
  body :: string

definition create_response :: "nat \<Rightarrow> jtext \<Rightarrow> response" where
  "create_response status_code b =
     \<lparr>statusCode = status_code,
      headers = [(''Content-Type'', ''application/json''),
                 (''Access-Control-Allow-Origin'', ''*'')],
      body = json_dumps b\<rparr>"

definition success_message :: "expense \<Rightarrow> string \<Rightarrow> string" where
  "success_message e updated_range =
     '' Registro agregado exitosamente:'' @ [CHR 0x0A] @
     '' Categor'' @ [CHR 0xED] @ ''a: '' @ category e @ [CHR 0x0A] @
     '' Fecha: '' @ date e @ [CHR 0x0A] @
     '' Descripci'' @ [CHR 0xF3] @ ''n: '' @ description e @ [CHR 0x0A] @
     '' Monto: $'' @ amount e @ [CHR 0x0A] @
     '' Cuenta: '' @ account e @ [CHR 0x0A] @
     '' Celda: '' @ updated_range"

definition expense_dict :: "expense \<Rightarrow> jtext" where
  "expense_dict e =
     JD [(''date'', JS (date e)),
         (''description'', JS (description e)),
         (''category'', JS (category e)),
         (''amount'', JS (amount e)),
         (''account'', JS (account e))]"

fun error_response :: "exn \<Rightarrow> response" where
  "error_response (ExpenseError m) = create_response 400 (JD [(''error'', JS m)])"
| "error_response e = create_response 500 (JD [(''error'', JS ''Error interno del servidor'')])"

definition lambda_handler ::
    "(string \<Rightarrow> exn + json) \<Rightarrow> string \<Rightarrow> sheet \<Rightarrow> json \<Rightarrow> sheet \<times> response" where
  "lambda_handler json_loads WORKSHEET_NAME w event =
     (case parse_payload json_loads event of
        Inl x \<Rightarrow> (w, error_response x)
      | Inr e \<Rightarrow>
          (case append_to_sheet WORKSHEET_NAME w e of
             (w', Inl x) \<Rightarrow> (w', error_response x)
           | (w', Inr updated_range) \<Rightarrow>
               (w', create_response 200
                      (JD [(''message'', JS (success_message e updated_range)),
                           (''data'', JD [(''expense'', expense_dict e),
                                          (''updated_range'', JS updated_range)])]))))"

fun spec_missing_empty_or_blank :: "json \<Rightarrow> bool" where
  "spec_missing_empty_or_blank JNull = True"
| "spec_missing_empty_or_blank (JString s) = (strip s = [])"
| "spec_missing_empty_or_blank (JArray xs) = (xs = [])"
| "spec_missing_empty_or_blank (JObject kvs) = (kvs = [])"
| "spec_missing_empty_or_blank v = False"

definition required_error :: "string \<Rightarrow> exn" where
  "required_error field_name =
     ExpenseError (''El campo '' @ [CHR 0x27] @ field_name @ [CHR 0x27] @ '' es requerido'')"

fun is_str :: "json \<Rightarrow> bool" where
  "is_str (JString s) = True"
| "is_str v = False"

fun is_dict :: "json \<Rightarrow> bool" where
  "is_dict (JObject kvs) = True"
| "is_dict v = False"

definition dict_get :: "(string \<times> json) list \<Rightarrow> string \<Rightarrow> json" where
  "dict_get kvs k = (case map_of kvs k of Some v \<Rightarrow> v | None \<Rightarrow> JNull)"

definition internal_error_response :: response where
  "internal_error_response =
     \<lparr>statusCode = 500,
      headers = [(''Content-Type'', ''application/json''),
                 (''Access-Control-Allow-Origin'', ''*'')],
      body = ''{'' @ [CHR 0x22] @ ''error'' @ [CHR 0x22] @ '': '' @ [CHR 0x22]
               @ ''Error interno del servidor'' @ [CHR 0x22] @ ''}''\<rparr>"




definition field_check :: "(string \<times> json) list \<Rightarrow> string \<Rightarrow> exn + string" where
  "field_check kvs k =
     and_then (validate_field (dict_get kvs k) k)
       (if k = ''date'' then validate_date
        else if k = ''category'' then validate_category
        else if k = ''amount'' then validate_amount
        else Inr)"

fun write_cells ::
    "(string \<times> cell_value) list \<Rightarrow> nat \<Rightarrow> (string \<rightharpoonup> cell_value) \<Rightarrow> (string \<rightharpoonup> cell_value)" where
  "write_cells [] r m = m"
| "write_cells ((col, v) # rest) r m = write_cells rest r (m(col @ show_nat r \<mapsto> v))"

definition reaches_updates :: "sheet \<Rightarrow> bool" where
  "reaches_updates w =
     (fault w Authorize = None \<and> fault w OpenWorksheet = None \<and>
      fault w GetAllValues = None \<and> fault w ToFloat = None)"

definition cell_of :: "sheet \<Rightarrow> string \<Rightarrow> string" where
  "cell_of w col = col @ show_nat (next_row w)"

definition spec_internal_error_body :: string where
  "spec_internal_error_body =
     ''{'' @ [CHR 0x22] @ ''error'' @ [CHR 0x22] @ '': '' @ [CHR 0x22]
       @ ''internal server error'' @ [CHR 0x22] @ ''}''"

definition coffee :: expense where
  "coffee = \<lparr>date = ''24-10-2025'', description = ''Coffee'', category = ''Almuerzo'',
              amount = ''3.50'', account = ''Cash''\<rparr>"

definition quota_at_D2 :: sheet where
  "quota_at_D2 =
     \<lparr>cells = Map.empty,
      all_values = [[''Fecha'']],
      fault = (\<lambda>c. if c = Update ''D2'' then Some (APIError ''quota'') else None)\<rparr>"

definition no_faults :: sheet where
  "no_faults = \<lparr>cells = Map.empty, all_values = [], fault = (\<lambda>c. None)\<rparr>"






definition spec_year_text :: "string \<Rightarrow> bool" where
  "spec_year_text Y = (length Y = 4 \<and> list_all is_digit Y)"



definition dash_after :: "(nat \<times> string) list \<Rightarrow> (nat \<times> string) list" where
  "dash_after cands = concat (map (\<lambda>(d, r1). map (\<lambda>r2. (d, r2)) (re_lit CHR ''-'' r1)) cands)"


section \<open>Proofs\<close>

lemma sublist_appendL: "sublist c ys \<Longrightarrow> sublist c (ps @ ys)"
  unfolding sublist_def by (metis append.assoc)

lemma sublist_join: "c \<in> set xs \<Longrightarrow> sublist c (join sep xs)"
proof (induction sep xs rule: join.induct)
  case (1 sep)
  then show ?case by simp
next
  case (2 sep x)
  then show ?case by simp
next
  case (3 sep x y ys)
  show ?case
  proof (cases "c = x")
    case True
    then show ?thesis by (simp add: sublist_append_rightI)
  next
    case False
    with 3 have "sublist c (join sep (y # ys))" by simp
    then have "sublist c ((x @ sep) @ join sep (y # ys))"
      by (rule sublist_appendL)
    then show ?thesis by simp
  qed
qed

lemma length_VALID_CATEGORIES: "length VALID_CATEGORIES = 25"
  by (simp add: VALID_CATEGORIES_def)

lemma distinct_VALID_CATEGORIES: "distinct VALID_CATEGORIES"
  unfolding VALID_CATEGORIES_def by code_simp

text \<open>
  Claim C8. The category list has 25 pairwise different entries. \<^verbatim>\<open>validate_category\<close>
  raises \<^verbatim>\<open>ExpenseError\<close> for every string that is not equal, character by character
  (so case-sensitively), to one of them, and the message of that error contains every
  valid category; a string that is in the list is returned as it is.
\<close>

theorem validate_category_membership:
  "length VALID_CATEGORIES = 25 \<and> distinct VALID_CATEGORIES \<and>
   (s \<notin> set VALID_CATEGORIES \<longrightarrow>
      (\<exists>msg. validate_category s = Inl (ExpenseError msg) \<and>
             (\<forall>c \<in> set VALID_CATEGORIES. sublist c msg))) \<and>
   (s \<in> set VALID_CATEGORIES \<longrightarrow> validate_category s = Inr s)"
proof -
  have "\<forall>c \<in> set VALID_CATEGORIES.
          sublist c ((''Categor'' @ [CHR 0xED] @ ''a inv'' @ [CHR 0xE1] @ ''lida. Opciones: '')
                       @ join '', '' VALID_CATEGORIES)"
    by (blast intro: sublist_appendL sublist_join)
  then show ?thesis
    by (simp add: validate_category_def length_VALID_CATEGORIES distinct_VALID_CATEGORIES)
qed

theorem validate_category_membership_witness:
  "''agua'' \<notin> set VALID_CATEGORIES \<and> ''Agua'' \<in> set VALID_CATEGORIES \<and>
   (\<exists>msg. validate_category ''agua'' = Inl (ExpenseError msg) \<and> sublist ''Ingreso'' msg) \<and>
   validate_category ''Recreacional'' = Inr ''Recreacional''"
proof -
  have no: "''agua'' \<notin> set VALID_CATEGORIES"
    by (simp add: VALID_CATEGORIES_def)
  have yes: "''Recreacional'' \<in> set VALID_CATEGORIES" "''Ingreso'' \<in> set VALID_CATEGORIES"
    "''Agua'' \<in> set VALID_CATEGORIES"
    by (simp_all add: VALID_CATEGORIES_def)
  from validate_category_membership [of "''agua''"] no yes(2)
  have "\<exists>msg. validate_category ''agua'' = Inl (ExpenseError msg) \<and> sublist ''Ingreso'' msg"
    by blast
  moreover from validate_category_membership [of "''Recreacional''"] yes(1)
  have "validate_category ''Recreacional'' = Inr ''Recreacional''"
    by blast
  ultimately show ?thesis using no yes(3) by blast
qed

lemma strip_unchanged:
  assumes "s \<noteq> []" "\<not> is_space (hd s)" "\<not> is_space (last s)"
  shows "strip s = s"
proof -
  from assms(1,2) have a: "dropWhile is_space s = s"
    by (cases s) simp_all
  from assms(1,3) have "dropWhile is_space (rev s) = rev s"
    by (cases "rev s") (simp_all add: last_rev[symmetric] hd_rev)
  with a show ?thesis by (simp add: strip_def)
qed

lemma digit_char_is_digit: "d < 10 \<Longrightarrow> is_digit (digit_char d)"
proof -
  assume "d < 10"
  then have "d \<in> {0, 1, 2, 3, 4, 5, 6, 7, 8, 9}" by auto
  then show ?thesis by (auto simp: is_digit_def digit_char_def)
qed

lemma is_digit_not_space: "is_digit c \<Longrightarrow> \<not> is_space c"
  by (auto simp: is_digit_def is_space_def)

lemma show_nat_digits: "show_nat n \<noteq> [] \<and> list_all is_digit (show_nat n)"
proof (induction n rule: show_nat.induct)
  case (1 n)
  show ?case
  proof (cases "n < 10")
    case True
    then show ?thesis by (simp add: show_nat.simps [of n] digit_char_is_digit)
  next
    case False
    with 1 show ?thesis by (simp add: show_nat.simps [of n] digit_char_is_digit)
  qed
qed

lemma show_nat_hd_last: "is_digit (hd (show_nat n)) \<and> is_digit (last (show_nat n))"
proof -
  from show_nat_digits [of n] have "show_nat n \<noteq> []" "\<forall>c \<in> set (show_nat n). is_digit c"
    by (simp_all add: list_all_iff)
  then show ?thesis by simp
qed

lemma strip_show_int: "strip (show_int i) = show_int i \<and> show_int i \<noteq> []"
proof (cases "i < 0")
  case True
  have "show_nat (nat (- i)) \<noteq> []" using show_nat_digits by blast
  moreover have "\<not> is_space (last (show_nat (nat (- i))))"
    using show_nat_hd_last is_digit_not_space by blast
  moreover have "\<not> is_space CHR ''-''" by (simp add: is_space_def)
  ultimately have "strip (CHR ''-'' # show_nat (nat (- i))) = CHR ''-'' # show_nat (nat (- i))"
    by (intro strip_unchanged) simp_all
  with True show ?thesis by (simp add: show_int_def)
next
  case False
  have "strip (show_nat (nat i)) = show_nat (nat i)"
    using show_nat_digits show_nat_hd_last is_digit_not_space by (intro strip_unchanged) blast+
  with False show ?thesis using show_nat_digits by (simp add: show_int_def)
qed

lemma strip_bracketed:
  "\<not> is_space a \<Longrightarrow> \<not> is_space b \<Longrightarrow> strip (a # m @ [b]) = a # m @ [b]"
  by (rule strip_unchanged) simp_all

lemma validate_field_falsy: "\<not> truthy v \<Longrightarrow> validate_field v n = Inl (required_error n)"
  by (simp add: validate_field_def required_error_def)

lemma validate_field_str:
  "validate_field (JString s) n = (if strip s = [] then Inl (required_error n) else Inr (strip s))"
  by (auto simp: validate_field_def required_error_def strip_def)

lemma validate_field_int: "k \<noteq> 0 \<Longrightarrow> validate_field (JInt k) n = Inr (show_int k)"
  using strip_show_int [of k] by (simp add: validate_field_def)

lemma validate_field_array:
  "xs \<noteq> [] \<Longrightarrow> validate_field (JArray xs) n = Inr (py_repr (JArray xs))"
proof -
  assume "xs \<noteq> []"
  have "strip (CHR ''['' # join '', '' (map py_repr xs) @ '']'')
          = CHR ''['' # join '', '' (map py_repr xs) @ '']''"
    by (rule strip_bracketed) (simp_all add: is_space_def)
  with \<open>xs \<noteq> []\<close> show ?thesis by (simp add: validate_field_def)
qed

lemma validate_field_object:
  "kvs \<noteq> [] \<Longrightarrow> validate_field (JObject kvs) n = Inr (py_repr (JObject kvs))"
proof -
  assume "kvs \<noteq> []"
  let ?m = "join '', '' (map (\<lambda>(k, v). repr_str k @ '': '' @ py_repr v) kvs)"
  have "strip (CHR ''{'' # ?m @ ''}'') = CHR ''{'' # ?m @ ''}''"
    by (rule strip_bracketed) (simp_all add: is_space_def)
  with \<open>kvs \<noteq> []\<close> show ?thesis by (simp add: validate_field_def)
qed

lemma validate_field_true: "validate_field (JBool True) n = Inr ''True''"
  by (simp add: validate_field_def strip_def is_space_def)

lemma validate_field_float:
  "validate_field (JFloat True r) n = (if strip r = [] then Inl (required_error n) else Inr (strip r))"
  by (simp add: validate_field_def required_error_def)

text \<open>
  Claim C9, as amended. \<^verbatim>\<open>validate_field\<close> raises \<^verbatim>\<open>ExpenseError\<close> with the message
  \<^verbatim>\<open>El campo '<name>' es requerido\<close> for every value that is missing (\<^verbatim>\<open>None\<close>), empty
  (the empty string, list or dictionary) or a string that is blank after trimming, and
  also for the other values that Python counts as false: \<^verbatim>\<open>False\<close>, the integer 0 and the
  float 0.0. Every other value is returned as \<^verbatim>\<open>str(value).strip()\<close>: the trimmed string
  itself, \<^verbatim>\<open>True\<close>, the decimal digits of a non-zero integer, the text of a non-zero
  float, the \<^verbatim>\<open>repr\<close> of a non-empty list or dictionary.
\<close>

theorem validate_field_by_truthiness:
  "(spec_missing_empty_or_blank v \<longrightarrow> validate_field v n = Inl (required_error n)) \<and>
   validate_field (JBool False) n = Inl (required_error n) \<and>
   validate_field (JInt 0) n = Inl (required_error n) \<and>
   validate_field (JFloat False r) n = Inl (required_error n) \<and>
   (strip s \<noteq> [] \<longrightarrow> validate_field (JString s) n = Inr (strip s)) \<and>
   validate_field (JBool True) n = Inr ''True'' \<and>
   (k \<noteq> 0 \<longrightarrow> validate_field (JInt k) n = Inr (show_int k)) \<and>
   (strip r \<noteq> [] \<longrightarrow> validate_field (JFloat True r) n = Inr (strip r)) \<and>
   (xs \<noteq> [] \<longrightarrow> validate_field (JArray xs) n = Inr (py_repr (JArray xs))) \<and>
   (kvs \<noteq> [] \<longrightarrow> validate_field (JObject kvs) n = Inr (py_repr (JObject kvs)))"
proof -
  have "spec_missing_empty_or_blank v \<longrightarrow> validate_field v n = Inl (required_error n)"
    by (cases v) (simp_all add: validate_field_falsy validate_field_str)
  then show ?thesis
    by (simp add: validate_field_falsy validate_field_str validate_field_int validate_field_array
        validate_field_object validate_field_true validate_field_float)
qed

theorem validate_field_by_truthiness_witness:
  "spec_missing_empty_or_blank (JString ''   '') \<and>
   validate_field (JString ''   '') ''account'' = Inl (required_error ''account'') \<and>
   strip '' Cash '' \<noteq> [] \<and>
   validate_field (JString '' Cash '') ''account'' = Inr ''Cash'' \<and>
   (100 :: int) \<noteq> 0 \<and> validate_field (JInt 100) ''amount'' = Inr ''100'' \<and>
   strip ''3.5'' \<noteq> [] \<and> validate_field (JFloat True ''3.5'') ''amount'' = Inr ''3.5'' \<and>
   [JInt 1] \<noteq> [] \<and> validate_field (JArray [JInt 1]) ''account'' = Inr ''[1]'' \<and>
   [(''a'', JNull)] \<noteq> [] \<and>
   validate_field (JObject [(''a'', JNull)]) ''account'' = Inr ([CHR ''{'', CHR 0x27, CHR ''a'', CHR 0x27] @ '': None}'')"
proof -
  have e: "strip ''   '' = []" "strip '' Cash '' = ''Cash''" "strip ''3.5'' = ''3.5''"
    by (simp_all add: strip_def is_space_def)
  have r: "show_int 100 = ''100''" "show_int 1 = ''1''"
    "repr_str ''a'' = [CHR 0x27, CHR ''a'', CHR 0x27]"
    by (simp_all add: show_int_def show_nat.simps digit_char_def repr_str_def repr_char_def
        printable_def Let_def)
  from validate_field_by_truthiness
    [of "JString ''   ''" "''account''" "''3.5''" "'' Cash ''" 100 "[JInt 1]" "[(''a'', JNull)]"]
    validate_field_by_truthiness
    [of "JNull" "''amount''" "''3.5''" "'' Cash ''" 100 "[JInt 1]" "[(''a'', JNull)]"]
  show ?thesis by (simp add: e r)
qed

theorem validate_field_zero_counterexample:
  "\<not> spec_missing_empty_or_blank (JInt 0) \<and>
   validate_field (JInt 0) ''amount'' =
     Inl (ExpenseError (''El campo '' @ [CHR 0x27] @ ''amount'' @ [CHR 0x27] @ '' es requerido'')) \<and>
   validate_field (JInt 0) ''amount'' \<noteq> Inr (strip (py_str (JInt 0)))"
  by (simp add: validate_field_def)





lemma is_ExpenseError_required [simp]: "is_ExpenseError (required_error n)"
  by (simp add: required_error_def)

lemma and_then_Inl [simp]: "and_then (Inl x) f = Inl x"
  by (simp add: and_then_def)

lemma and_then_Inr [simp]: "and_then (Inr a) f = f a"
  by (simp add: and_then_def)



lemma py_get_dict [simp]:
  "py_get (JObject kvs) k JNull = Inr (dict_get kvs k)"
  by (simp add: dict_get_def)

text \<open>The five checks of a dictionary body, one per field, in the order of the source.\<close>

lemma payload_fields_dict:
  "payload_fields (JObject kvs) =
     and_then (and_then (validate_field (dict_get kvs ''date'') ''date'') validate_date) (\<lambda>r1.
     and_then (validate_field (dict_get kvs ''description'') ''description'') (\<lambda>r2.
     and_then (and_then (validate_field (dict_get kvs ''category'') ''category'') validate_category) (\<lambda>r3.
     and_then (and_then (validate_field (dict_get kvs ''amount'') ''amount'') validate_amount) (\<lambda>r4.
     and_then (validate_field (dict_get kvs ''account'') ''account'') (\<lambda>r5.
       Inr \<lparr>date = r1, description = r2, category = r3, amount = r4, account = r5\<rparr>)))))"
  unfolding payload_fields_def py_get_dict and_then_Inr
  by (simp add: and_then_def split: sum.splits)


lemma field_check_simps:
  "field_check kvs ''date'' = and_then (validate_field (dict_get kvs ''date'') ''date'') validate_date"
  "field_check kvs ''description'' = validate_field (dict_get kvs ''description'') ''description''"
  "field_check kvs ''category'' =
     and_then (validate_field (dict_get kvs ''category'') ''category'') validate_category"
  "field_check kvs ''amount'' =
     and_then (validate_field (dict_get kvs ''amount'') ''amount'') validate_amount"
  "field_check kvs ''account'' = validate_field (dict_get kvs ''account'') ''account''"
  by (simp_all add: field_check_def and_then_def split: sum.splits)

lemma payload_fields_checks:
  "payload_fields (JObject kvs) =
     and_then (field_check kvs ''date'') (\<lambda>r1.
     and_then (field_check kvs ''description'') (\<lambda>r2.
     and_then (field_check kvs ''category'') (\<lambda>r3.
     and_then (field_check kvs ''amount'') (\<lambda>r4.
     and_then (field_check kvs ''account'') (\<lambda>r5.
       Inr \<lparr>date = r1, description = r2, category = r3, amount = r4, account = r5\<rparr>)))))"
  unfolding field_check_simps by (rule payload_fields_dict)

text \<open>
  Claim C6. A dictionary body is checked field by field in the order date, description,
  category, amount, account; the check of a field is \<^verbatim>\<open>validate_field\<close> first and then,
  for date, category and amount, the validator of that field on the trimmed string. The
  error of the first failing field is the result whatever the later fields hold, and the
  record is built only when all five checks pass.
\<close>

theorem payload_fields_fail_fast:
  "(field_check kvs ''date'' = Inl x \<longrightarrow> payload_fields (JObject kvs) = Inl x) \<and>
   (field_check kvs ''date'' = Inr r1 \<and> field_check kvs ''description'' = Inl x
      \<longrightarrow> payload_fields (JObject kvs) = Inl x) \<and>
   (field_check kvs ''date'' = Inr r1 \<and> field_check kvs ''description'' = Inr r2 \<and>
    field_check kvs ''category'' = Inl x
      \<longrightarrow> payload_fields (JObject kvs) = Inl x) \<and>
   (field_check kvs ''date'' = Inr r1 \<and> field_check kvs ''description'' = Inr r2 \<and>
    field_check kvs ''category'' = Inr r3 \<and> field_check kvs ''amount'' = Inl x
      \<longrightarrow> payload_fields (JObject kvs) = Inl x) \<and>
   (field_check kvs ''date'' = Inr r1 \<and> field_check kvs ''description'' = Inr r2 \<and>
    field_check kvs ''category'' = Inr r3 \<and> field_check kvs ''amount'' = Inr r4 \<and>
    field_check kvs ''account'' = Inl x
      \<longrightarrow> payload_fields (JObject kvs) = Inl x) \<and>
   (field_check kvs ''date'' = Inr r1 \<and> field_check kvs ''description'' = Inr r2 \<and>
    field_check kvs ''category'' = Inr r3 \<and> field_check kvs ''amount'' = Inr r4 \<and>
    field_check kvs ''account'' = Inr r5
      \<longrightarrow> payload_fields (JObject kvs) =
            Inr \<lparr>date = r1, description = r2, category = r3, amount = r4, account = r5\<rparr>) \<and>
   (validate_field (dict_get kvs k) k = Inl x \<longrightarrow> field_check kvs k = Inl x) \<and>
   (validate_field (dict_get kvs ''date'') ''date'' = Inr s
      \<longrightarrow> field_check kvs ''date'' = validate_date s) \<and>
   (validate_field (dict_get kvs ''category'') ''category'' = Inr s
      \<longrightarrow> field_check kvs ''category'' = validate_category s) \<and>
   (validate_field (dict_get kvs ''amount'') ''amount'' = Inr s
      \<longrightarrow> field_check kvs ''amount'' = validate_amount s)"
proof -
  have "validate_field (dict_get kvs k) k = Inl x \<longrightarrow> field_check kvs k = Inl x"
    by (simp add: field_check_def)
  then show ?thesis
    unfolding payload_fields_checks by (simp add: field_check_simps)
qed

lemmas date_eval = validate_date_def strptime_def re_match_def re_d_def re_m_def re_Y_def
  re_lit_def valid_date_def days_in_month_def is_leap_def is_digit_def digit_val_def
  int_of_digits_def

lemmas amount_eval = validate_amount_def Decimal_def strip_def is_space_def lower_def
  is_nan_literal_def parse_finite_def parse_exponent_def is_digit_def int_of_digits_def
  digit_val_def quantize2_def show_nat.simps digit_char_def

lemmas field_eval = field_check_def dict_get_def validate_field_def strip_def is_space_def

theorem payload_fields_fail_fast_witness:
  "field_check [(''date'', JString ''2025-10-24''), (''amount'', JString ''abc'')] ''date''
     = Inl (ExpenseError (''Fecha inv'' @ [CHR 0xE1] @ ''lida: 2025-10-24. Use formato DD-MM-YYYY'')) \<and>
   payload_fields (JObject [(''date'', JString ''2025-10-24''), (''amount'', JString ''abc'')])
     = Inl (ExpenseError (''Fecha inv'' @ [CHR 0xE1] @ ''lida: 2025-10-24. Use formato DD-MM-YYYY'')) \<and>
   field_check [(''date'', JString '' 24-10-2025 ''), (''amount'', JString ''abc'')] ''date''
     = Inr ''24-10-2025'' \<and>
   field_check [(''date'', JString '' 24-10-2025 ''), (''amount'', JString ''abc'')] ''description''
     = Inl (required_error ''description'') \<and>
   payload_fields (JObject [(''date'', JString '' 24-10-2025 ''), (''amount'', JString ''abc'')])
     = Inl (required_error ''description'')"
proof -
  let ?a = "[(''date'', JString ''2025-10-24''), (''amount'', JString ''abc'')]"
  let ?b = "[(''date'', JString '' 24-10-2025 ''), (''amount'', JString ''abc'')]"
  have a: "field_check ?a ''date''
     = Inl (ExpenseError (''Fecha inv'' @ [CHR 0xE1] @ ''lida: 2025-10-24. Use formato DD-MM-YYYY''))"
    by (simp add: field_eval date_eval)
  have b1: "field_check ?b ''date'' = Inr ''24-10-2025''"
    by (simp add: field_eval date_eval)
  have b2: "field_check ?b ''description'' = Inl (required_error ''description'')"
    by (simp add: field_eval required_error_def)
  from payload_fields_fail_fast [of ?a _ _ _ _ _ _ _ "''date''"] a
  have "payload_fields (JObject ?a)
     = Inl (ExpenseError (''Fecha inv'' @ [CHR 0xE1] @ ''lida: 2025-10-24. Use formato DD-MM-YYYY''))"
    by blast
  moreover from payload_fields_fail_fast [of ?b _ _ _ _ _ _ _ "''date''"] b1 b2
  have "payload_fields (JObject ?b) = Inl (required_error ''description'')"
    by blast
  ultimately show ?thesis using a b1 b2 by blast
qed

lemma payload_fields_non_dict:
  "\<not> is_dict b \<Longrightarrow> \<exists>m. payload_fields b = Inl (AttributeError m)"
  by (cases b) (simp_all add: payload_fields_def)

lemma payload_body_dict:
  "payload_body json_loads (JObject ev) =
     (case map_of ev ''body'' of
        Some (JString s) \<Rightarrow> json_loads s
      | Some b \<Rightarrow> Inr b
      | None \<Rightarrow> Inr (JObject ev))"
  by (simp add: payload_body_def split: option.splits json.splits)

lemma parse_payload_Inr_body:
  "payload_body json_loads event = Inr b \<Longrightarrow> payload_fields b = Inl x \<Longrightarrow>
     is_ExpenseError x \<or> (\<exists>m. x = AttributeError m)
   \<Longrightarrow> parse_payload json_loads event = Inl x"
  by (cases x) (auto simp: parse_payload_def)






lemma parse_payload_non_dict_body:
  assumes "payload_body json_loads event = Inr b" "\<not> is_dict b"
  shows "\<exists>m. parse_payload json_loads event = Inl (AttributeError m)"
proof -
  from payload_fields_non_dict [OF assms(2)] obtain m
    where "payload_fields b = Inl (AttributeError m)" by blast
  with assms(1) have "parse_payload json_loads event = Inl (AttributeError m)"
    by (intro parse_payload_Inr_body) auto
  then show ?thesis by blast
qed





lemma error_response_500:
  "\<not> is_ExpenseError x \<Longrightarrow> error_response x = internal_error_response"
  by (cases x)
     (simp_all add: create_response_def internal_error_response_def dumps_str_def json_escape_def)

lemma error_response_400:
  "\<exists>b. error_response (ExpenseError m)
         = \<lparr>statusCode = 400,
            headers = [(''Content-Type'', ''application/json''),
                       (''Access-Control-Allow-Origin'', ''*'')],
            body = b\<rparr>"
  by (simp add: create_response_def)

lemma lambda_handler_parse_error:
  "parse_payload json_loads event = Inl x \<Longrightarrow>
     lambda_handler json_loads ws w event = (w, error_response x)"
  by (simp add: lambda_handler_def)

text \<open>
  Claim C10. When the event is a dictionary whose \<^verbatim>\<open>'body'\<close> key holds a value that is
  neither a string nor a dictionary (\<^verbatim>\<open>None\<close>, a number, a boolean, a list), or holds a
  string that \<^verbatim>\<open>json.loads\<close> decodes to a value that is not a dictionary, the first
  \<^verbatim>\<open>body.get\<close> raises \<^verbatim>\<open>AttributeError\<close>; the parser lets it through and the handler
  answers with status 500, leaving the sheet alone.
\<close>

theorem non_dict_body_status_500:
  "(map_of ev ''body'' = Some b \<and> \<not> is_str b \<and> \<not> is_dict b
      \<longrightarrow> (\<exists>m. parse_payload json_loads (JObject ev) = Inl (AttributeError m)) \<and>
          lambda_handler json_loads ws w (JObject ev) = (w, internal_error_response)) \<and>
   (map_of ev ''body'' = Some (JString s) \<and> json_loads s = Inr v \<and> \<not> is_dict v
      \<longrightarrow> (\<exists>m. parse_payload json_loads (JObject ev) = Inl (AttributeError m)) \<and>
          lambda_handler json_loads ws w (JObject ev) = (w, internal_error_response)) \<and>
   statusCode internal_error_response = 500"
proof -
  have h: "lambda_handler json_loads ws w (JObject ev) = (w, internal_error_response)"
    if "parse_payload json_loads (JObject ev) = Inl (AttributeError m)" for m
    using lambda_handler_parse_error [OF that] error_response_500 [of "AttributeError m"]
    by simp
  have 1: "map_of ev ''body'' = Some b \<and> \<not> is_str b \<and> \<not> is_dict b
      \<longrightarrow> (\<exists>m. parse_payload json_loads (JObject ev) = Inl (AttributeError m)) \<and>
          lambda_handler json_loads ws w (JObject ev) = (w, internal_error_response)"
  proof (intro impI, elim conjE)
    assume a: "map_of ev ''body'' = Some b" "\<not> is_str b" "\<not> is_dict b"
    then have "payload_body json_loads (JObject ev) = Inr b"
      by (cases b) (simp_all add: payload_body_dict)
    from parse_payload_non_dict_body [OF this a(3)] obtain m
      where m: "parse_payload json_loads (JObject ev) = Inl (AttributeError m)" by blast
    with h [OF m]
    show "(\<exists>m. parse_payload json_loads (JObject ev) = Inl (AttributeError m)) \<and>
          lambda_handler json_loads ws w (JObject ev) = (w, internal_error_response)"
      by blast
  qed
  have 2: "map_of ev ''body'' = Some (JString s) \<and> json_loads s = Inr v \<and> \<not> is_dict v
      \<longrightarrow> (\<exists>m. parse_payload json_loads (JObject ev) = Inl (AttributeError m)) \<and>
          lambda_handler json_loads ws w (JObject ev) = (w, internal_error_response)"
  proof (intro impI, elim conjE)
    assume a: "map_of ev ''body'' = Some (JString s)" "json_loads s = Inr v" "\<not> is_dict v"
    then have "payload_body json_loads (JObject ev) = Inr v"
      by (simp add: payload_body_dict)
    from parse_payload_non_dict_body [OF this a(3)] obtain m
      where m: "parse_payload json_loads (JObject ev) = Inl (AttributeError m)" by blast
    with h [OF m]
    show "(\<exists>m. parse_payload json_loads (JObject ev) = Inl (AttributeError m)) \<and>
          lambda_handler json_loads ws w (JObject ev) = (w, internal_error_response)"
      by blast
  qed
  from 1 2 show ?thesis by (simp add: internal_error_response_def)
qed

theorem non_dict_body_status_500_witness:
  "map_of [(''body'', JNull)] ''body'' = Some JNull \<and> \<not> is_str JNull \<and> \<not> is_dict JNull \<and>
   lambda_handler (\<lambda>s. Inr (JArray [])) ''Sheet1'' no_faults (JObject [(''body'', JNull)])
     = (no_faults, internal_error_response) \<and>
   map_of [(''body'', JString ''[]'')] ''body'' = Some (JString ''[]'') \<and>
   \<not> is_dict (JArray []) \<and>
   lambda_handler (\<lambda>s. Inr (JArray [])) ''Sheet1'' no_faults (JObject [(''body'', JString ''[]'')])
     = (no_faults, internal_error_response) \<and>
   statusCode internal_error_response = 500"
proof -
  let ?l = "\<lambda>s :: string. (Inr (JArray []) :: exn + json)"
  have m1: "map_of [(''body'', JNull)] ''body'' = Some JNull" by simp
  have m2: "map_of [(''body'', JString ''[]'')] ''body'' = Some (JString ''[]'')" by simp
  note t1 = non_dict_body_status_500
    [of "[(''body'', JNull)]" JNull ?l "''Sheet1''" no_faults "''[]''" "JArray []"]
  note t2 = non_dict_body_status_500
    [of "[(''body'', JString ''[]'')]" JNull ?l "''Sheet1''" no_faults "''[]''" "JArray []"]
  from t1 m1 have a: "lambda_handler ?l ''Sheet1'' no_faults (JObject [(''body'', JNull)])
     = (no_faults, internal_error_response)" by simp
  from t2 m2 have b: "lambda_handler ?l ''Sheet1'' no_faults (JObject [(''body'', JString ''[]'')])
     = (no_faults, internal_error_response)" by simp
  from t1 have c: "statusCode internal_error_response = 500" by blast
  from a b c m1 m2 show ?thesis by simp
qed

lemma wrap_error_is_ExpenseError [simp]: "is_ExpenseError (wrap_error x)"
  by (cases x) simp_all

lemma update_cells_fault [simp]: "fault (w\<lparr>cells := m\<rparr>) = fault w"
  by simp

lemma update_cells_all_ok:
  "(\<forall>(c, v) \<in> set cm. fault w (Update (c @ show_nat r)) = None) \<Longrightarrow>
     update_cells w cm r = (w\<lparr>cells := write_cells cm r (cells w)\<rparr>, None)"
proof (induction cm arbitrary: w)
  case Nil
  then show ?case by simp
next
  case (Cons a cm)
  obtain c v where a: "a = (c, v)" by (cases a)
  from Cons.prems a have ok: "fault w (Update (c @ show_nat r)) = None"
    and rest: "\<forall>(c, v) \<in> set cm. fault w (Update (c @ show_nat r)) = None"
    by auto
  let ?w = "w\<lparr>cells := (cells w)(c @ show_nat r \<mapsto> v)\<rparr>"
  from rest have "\<forall>(c, v) \<in> set cm. fault ?w (Update (c @ show_nat r)) = None" by simp
  from Cons.IH [OF this]
  have ih: "update_cells ?w cm r = (?w\<lparr>cells := write_cells cm r (cells ?w)\<rparr>, None)" .
  have step: "update_cells w (a # cm) r = update_cells ?w cm r"
    using a ok by simp
  have fin: "?w\<lparr>cells := write_cells cm r (cells ?w)\<rparr>
              = w\<lparr>cells := write_cells (a # cm) r (cells w)\<rparr>"
    using a by simp
  show ?case by (simp only: step ih fin)
qed

lemma update_cells_fails_at:
  "(\<forall>(c, v) \<in> set pre. fault w (Update (c @ show_nat r)) = None) \<Longrightarrow>
   fault w (Update (c @ show_nat r)) = Some x \<Longrightarrow>
     update_cells w (pre @ (c, v) # post) r = (w\<lparr>cells := write_cells pre r (cells w)\<rparr>, Some x)"
proof (induction pre arbitrary: w)
  case Nil
  then show ?case by simp
next
  case (Cons a pre)
  obtain c' v' where a: "a = (c', v')" by (cases a)
  from Cons.prems a have ok: "fault w (Update (c' @ show_nat r)) = None"
    and rest: "\<forall>(c, v) \<in> set pre. fault w (Update (c @ show_nat r)) = None"
    by auto
  let ?w = "w\<lparr>cells := (cells w)(c' @ show_nat r \<mapsto> v')\<rparr>"
  from rest have 1: "\<forall>(c, v) \<in> set pre. fault ?w (Update (c @ show_nat r)) = None" by simp
  from Cons.prems(2) have 2: "fault ?w (Update (c @ show_nat r)) = Some x" by simp
  from Cons.IH [OF 1 2]
  have ih: "update_cells ?w (pre @ (c, v) # post) r
              = (?w\<lparr>cells := write_cells pre r (cells ?w)\<rparr>, Some x)" .
  have step: "update_cells w ((a # pre) @ (c, v) # post) r
                = update_cells ?w (pre @ (c, v) # post) r"
    using a ok by simp
  have fin: "?w\<lparr>cells := write_cells pre r (cells ?w)\<rparr>
              = w\<lparr>cells := write_cells (a # pre) r (cells w)\<rparr>"
    using a by simp
  show ?case by (simp only: step ih fin)
qed

lemma write_cells_other:
  "(\<forall>(c, v) \<in> set cm. a \<noteq> c @ show_nat r) \<Longrightarrow> write_cells cm r m a = m a"
  by (induction cm arbitrary: m) auto

lemma write_cells_written:
  "distinct (map fst cm) \<Longrightarrow> (c, v) \<in> set cm \<Longrightarrow> write_cells cm r m (c @ show_nat r) = Some v"
proof (induction cm arbitrary: m)
  case Nil
  then show ?case by simp
next
  case (Cons a cm)
  obtain c' v' where a: "a = (c', v')" by (cases a)
  show ?case
  proof (cases "(c, v) = a")
    case True
    with Cons.prems a have "\<forall>(c'', v'') \<in> set cm. c @ show_nat r \<noteq> c'' @ show_nat r"
      by (auto simp: rev_image_eqI)
    from write_cells_other [OF this] True a show ?thesis by simp
  next
    case False
    with Cons.prems a have "distinct (map fst cm)" "(c, v) \<in> set cm" by auto
    from Cons.IH [OF this] a show ?thesis by simp
  qed
qed

lemma update_cells_prefix:
  "\<exists>k \<le> length cm. fst (update_cells w cm r) = w\<lparr>cells := write_cells (take k cm) r (cells w)\<rparr>"
proof (induction cm arbitrary: w)
  case Nil
  then show ?case by simp
next
  case (Cons a cm)
  obtain c v where a: "a = (c, v)" by (cases a)
  show ?case
  proof (cases "fault w (Update (c @ show_nat r))")
    case (Some x)
    with a have "fst (update_cells w (a # cm) r) = w\<lparr>cells := write_cells (take 0 (a # cm)) r (cells w)\<rparr>"
      by simp
    then show ?thesis by blast
  next
    case None
    let ?w = "w\<lparr>cells := (cells w)(c @ show_nat r \<mapsto> v)\<rparr>"
    from Cons.IH [of ?w] obtain k where k: "k \<le> length cm"
      and ih: "fst (update_cells ?w cm r) = ?w\<lparr>cells := write_cells (take k cm) r (cells ?w)\<rparr>"
      by blast
    have step: "update_cells w (a # cm) r = update_cells ?w cm r"
      using a None by simp
    have fin: "?w\<lparr>cells := write_cells (take k cm) r (cells ?w)\<rparr>
                = w\<lparr>cells := write_cells (take (Suc k) (a # cm)) r (cells w)\<rparr>"
      using a by simp
    have "fst (update_cells w (a # cm) r)
        = w\<lparr>cells := write_cells (take (Suc k) (a # cm)) r (cells w)\<rparr>"
      by (simp only: step ih fin)
    moreover from k have "Suc k \<le> length (a # cm)" by simp
    ultimately show ?thesis by blast
  qed
qed

lemma append_to_sheet_before_loop:
  "\<not> reaches_updates w \<Longrightarrow>
     fst (append_to_sheet ws w e) = w \<and> (\<exists>x. snd (append_to_sheet ws w e) = Inl x)"
  by (auto simp: reaches_updates_def append_to_sheet_def split: option.splits)

lemma append_to_sheet_loop:
  "reaches_updates w \<Longrightarrow>
     append_to_sheet ws w e =
       (case update_cells w (column_mapping e) (next_row w) of
          (w', Some x) \<Rightarrow> (w', Inl (wrap_error x))
        | (w', None) \<Rightarrow>
            (w', Inr (ws @ ''!A'' @ show_nat (next_row w) @ '':H'' @ show_nat (next_row w))))"
  by (auto simp: reaches_updates_def append_to_sheet_def split: prod.splits option.splits)

lemma append_to_sheet_error: "snd (append_to_sheet ws w e) = Inl x \<Longrightarrow> is_ExpenseError x"
  by (auto simp: append_to_sheet_def split: option.splits prod.splits)

lemma append_to_sheet_prefix:
  "\<exists>k \<le> 5. fst (append_to_sheet ws w e)
              = w\<lparr>cells := write_cells (take k (column_mapping e)) (next_row w) (cells w)\<rparr>"
proof (cases "reaches_updates w")
  case False
  from append_to_sheet_before_loop [OF this]
  have "fst (append_to_sheet ws w e)
          = w\<lparr>cells := write_cells (take 0 (column_mapping e)) (next_row w) (cells w)\<rparr>"
    by simp
  then show ?thesis by blast
next
  case True
  from update_cells_prefix [of "column_mapping e" w "next_row w"]
  obtain k where k: "k \<le> length (column_mapping e)"
    and u: "fst (update_cells w (column_mapping e) (next_row w))
              = w\<lparr>cells := write_cells (take k (column_mapping e)) (next_row w) (cells w)\<rparr>"
    by blast
  have "fst (append_to_sheet ws w e) = fst (update_cells w (column_mapping e) (next_row w))"
    unfolding append_to_sheet_loop [OF True] by (simp split: prod.splits option.splits)
  with u have "fst (append_to_sheet ws w e)
      = w\<lparr>cells := write_cells (take k (column_mapping e)) (next_row w) (cells w)\<rparr>"
    by (simp only:)
  moreover from k have "k \<le> 5" by (simp add: column_mapping_def)
  ultimately show ?thesis by blast
qed

lemma columns_of_mapping: "map fst (column_mapping e) = [''A'', ''C'', ''D'', ''G'', ''H'']"
  by (simp add: column_mapping_def)

lemma append_to_sheet_frame:
  assumes "a \<notin> set (map (cell_of w) [''A'', ''C'', ''D'', ''G'', ''H''])"
  shows "cells (fst (append_to_sheet ws w e)) a = cells w a"
proof -
  from append_to_sheet_prefix obtain k where
    k: "fst (append_to_sheet ws w e)
          = w\<lparr>cells := write_cells (take k (column_mapping e)) (next_row w) (cells w)\<rparr>"
    by blast
  have "\<forall>(c, v) \<in> set (take k (column_mapping e)). a \<noteq> c @ show_nat (next_row w)"
  proof (clarify)
    fix c v
    assume "(c, v) \<in> set (take k (column_mapping e))"
    then have "(c, v) \<in> set (column_mapping e)" by (rule in_set_takeD)
    then have "c \<in> set (map fst (column_mapping e))" by force
    then have "c \<in> set [''A'', ''C'', ''D'', ''G'', ''H'']"
      unfolding columns_of_mapping .
    then have "cell_of w c \<in> cell_of w ` set [''A'', ''C'', ''D'', ''G'', ''H'']"
      by (rule imageI)
    then have "cell_of w c \<in> set (map (cell_of w) [''A'', ''C'', ''D'', ''G'', ''H''])"
      by (simp only: set_map)
    moreover assume "a = c @ show_nat (next_row w)"
    ultimately show False using assms by (simp add: cell_of_def)
  qed
  from write_cells_other [OF this] k show ?thesis by simp
qed

lemma append_to_sheet_all_ok:
  assumes "reaches_updates w"
      and "\<forall>col \<in> set [''A'', ''C'', ''D'', ''G'', ''H'']. fault w (Update (cell_of w col)) = None"
  shows "append_to_sheet ws w e =
           (w\<lparr>cells := write_cells (column_mapping e) (next_row w) (cells w)\<rparr>,
            Inr (ws @ ''!'' @ cell_of w ''A'' @ '':'' @ cell_of w ''H''))"
proof -
  from assms(2)
  have "\<forall>(c, v) \<in> set (column_mapping e). fault w (Update (c @ show_nat (next_row w))) = None"
    by (simp add: column_mapping_def cell_of_def)
  from update_cells_all_ok [OF this] show ?thesis
    unfolding append_to_sheet_loop [OF assms(1)] by (simp add: cell_of_def)
qed

lemma written_cell:
  "(c, v) \<in> set (column_mapping e) \<Longrightarrow>
     write_cells (column_mapping e) (next_row w) m (cell_of w c) = Some v"
  unfolding cell_of_def
  by (rule write_cells_written) (simp_all add: columns_of_mapping)

text \<open>
  Claim C7. The row is one more than the number of rows that \<^verbatim>\<open>get_all_values\<close> returns.
  Whatever happens during the call, a cell whose address is not column A, C, D, G or H of
  that row keeps its content, in particular columns B, E and F of the row. When no step
  fails, the five cells hold date, description, category, amount (as a number) and
  account, and the result is the worksheet name, \<^verbatim>\<open>!\<close>, the address of column A, \<^verbatim>\<open>:\<close> and
  the address of column H.
\<close>

theorem append_to_sheet_row_and_columns:
  "cell_of w col = col @ show_nat (length (all_values w) + 1) \<and>
   (a \<notin> set (map (cell_of w) [''A'', ''C'', ''D'', ''G'', ''H''])
      \<longrightarrow> cells (fst (append_to_sheet ws w e)) a = cells w a) \<and>
   cells (fst (append_to_sheet ws w e)) (cell_of w ''B'') = cells w (cell_of w ''B'') \<and>
   cells (fst (append_to_sheet ws w e)) (cell_of w ''E'') = cells w (cell_of w ''E'') \<and>
   cells (fst (append_to_sheet ws w e)) (cell_of w ''F'') = cells w (cell_of w ''F'') \<and>
   (reaches_updates w \<and>
    (\<forall>col \<in> set [''A'', ''C'', ''D'', ''G'', ''H'']. fault w (Update (cell_of w col)) = None)
      \<longrightarrow> snd (append_to_sheet ws w e) = Inr (ws @ ''!'' @ cell_of w ''A'' @ '':'' @ cell_of w ''H'') \<and>
          cells (fst (append_to_sheet ws w e)) (cell_of w ''A'') = Some (Text (date e)) \<and>
          cells (fst (append_to_sheet ws w e)) (cell_of w ''C'') = Some (Text (description e)) \<and>
          cells (fst (append_to_sheet ws w e)) (cell_of w ''D'') = Some (Text (category e)) \<and>
          cells (fst (append_to_sheet ws w e)) (cell_of w ''G'') = Some (Number (amount e)) \<and>
          cells (fst (append_to_sheet ws w e)) (cell_of w ''H'') = Some (Text (account e)))"
proof -
  have 1: "cell_of w col = col @ show_nat (length (all_values w) + 1)"
    by (simp add: cell_of_def next_row_def)
  have 2: "a \<notin> set (map (cell_of w) [''A'', ''C'', ''D'', ''G'', ''H''])
      \<longrightarrow> cells (fst (append_to_sheet ws w e)) a = cells w a"
    using append_to_sheet_frame by blast
  have b: "cell_of w ''B'' \<notin> set (map (cell_of w) [''A'', ''C'', ''D'', ''G'', ''H''])"
    and e: "cell_of w ''E'' \<notin> set (map (cell_of w) [''A'', ''C'', ''D'', ''G'', ''H''])"
    and f: "cell_of w ''F'' \<notin> set (map (cell_of w) [''A'', ''C'', ''D'', ''G'', ''H''])"
    by (simp_all add: cell_of_def)
  have 3: "reaches_updates w \<and>
    (\<forall>col \<in> set [''A'', ''C'', ''D'', ''G'', ''H'']. fault w (Update (cell_of w col)) = None)
      \<longrightarrow> snd (append_to_sheet ws w e) = Inr (ws @ ''!'' @ cell_of w ''A'' @ '':'' @ cell_of w ''H'') \<and>
          cells (fst (append_to_sheet ws w e)) (cell_of w ''A'') = Some (Text (date e)) \<and>
          cells (fst (append_to_sheet ws w e)) (cell_of w ''C'') = Some (Text (description e)) \<and>
          cells (fst (append_to_sheet ws w e)) (cell_of w ''D'') = Some (Text (category e)) \<and>
          cells (fst (append_to_sheet ws w e)) (cell_of w ''G'') = Some (Number (amount e)) \<and>
          cells (fst (append_to_sheet ws w e)) (cell_of w ''H'') = Some (Text (account e))"
  proof (intro impI, elim conjE)
    assume r: "reaches_updates w"
      and ok: "\<forall>col \<in> set [''A'', ''C'', ''D'', ''G'', ''H'']. fault w (Update (cell_of w col)) = None"
    note eq = append_to_sheet_all_ok [OF r ok, of ws e]
    have m: "(''A'', Text (date e)) \<in> set (column_mapping e)"
      "(''C'', Text (description e)) \<in> set (column_mapping e)"
      "(''D'', Text (category e)) \<in> set (column_mapping e)"
      "(''G'', Number (amount e)) \<in> set (column_mapping e)"
      "(''H'', Text (account e)) \<in> set (column_mapping e)"
      by (simp_all add: column_mapping_def)
    show "snd (append_to_sheet ws w e) = Inr (ws @ ''!'' @ cell_of w ''A'' @ '':'' @ cell_of w ''H'') \<and>
          cells (fst (append_to_sheet ws w e)) (cell_of w ''A'') = Some (Text (date e)) \<and>
          cells (fst (append_to_sheet ws w e)) (cell_of w ''C'') = Some (Text (description e)) \<and>
          cells (fst (append_to_sheet ws w e)) (cell_of w ''D'') = Some (Text (category e)) \<and>
          cells (fst (append_to_sheet ws w e)) (cell_of w ''G'') = Some (Number (amount e)) \<and>
          cells (fst (append_to_sheet ws w e)) (cell_of w ''H'') = Some (Text (account e))"
      unfolding eq by (simp add: written_cell [OF m(1)] written_cell [OF m(2)]
          written_cell [OF m(3)] written_cell [OF m(4)] written_cell [OF m(5)])
  qed
  from 1 2 3 append_to_sheet_frame [OF b] append_to_sheet_frame [OF e] append_to_sheet_frame [OF f]
  show ?thesis by blast
qed

lemma cell_of_no_faults: "cell_of no_faults col = col @ ''1''"
  by (simp add: cell_of_def next_row_def no_faults_def show_nat.simps digit_char_def)

lemma cell_of_quota: "cell_of quota_at_D2 col = col @ ''2''"
  by (simp add: cell_of_def next_row_def quota_at_D2_def show_nat.simps digit_char_def)

theorem append_to_sheet_row_and_columns_witness:
  "reaches_updates no_faults \<and>
   fault no_faults (Update ''A1'') = None \<and> fault no_faults (Update ''C1'') = None \<and>
   fault no_faults (Update ''D1'') = None \<and> fault no_faults (Update ''G1'') = None \<and>
   fault no_faults (Update ''H1'') = None \<and>
   snd (append_to_sheet ''Sheet1'' no_faults coffee) = Inr ''Sheet1!A1:H1'' \<and>
   cells (fst (append_to_sheet ''Sheet1'' no_faults coffee)) ''A1'' = Some (Text ''24-10-2025'') \<and>
   cells (fst (append_to_sheet ''Sheet1'' no_faults coffee)) ''G1'' = Some (Number ''3.50'') \<and>
   cells (fst (append_to_sheet ''Sheet1'' no_faults coffee)) ''B1'' = None \<and>
   ''Z9'' \<notin> set (map (cell_of no_faults) [''A'', ''C'', ''D'', ''G'', ''H'']) \<and>
   cells (fst (append_to_sheet ''Sheet1'' no_faults coffee)) ''Z9'' = None"
proof -
  have r: "reaches_updates no_faults"
    by (simp add: reaches_updates_def no_faults_def)
  have f: "fault no_faults c = None" for c
    by (simp add: no_faults_def)
  have ok: "\<forall>col \<in> set [''A'', ''C'', ''D'', ''G'', ''H'']. fault no_faults (Update (cell_of no_faults col)) = None"
    by (simp add: f)
  have z: "''Z9'' \<notin> set (map (cell_of no_faults) [''A'', ''C'', ''D'', ''G'', ''H''])"
    by (simp add: cell_of_no_faults)
  have c: "cells no_faults a = None" for a
    by (simp add: no_faults_def)
  have v: "date coffee = ''24-10-2025''" "amount coffee = ''3.50''"
    by (simp_all add: coffee_def)
  note t = append_to_sheet_row_and_columns [of no_faults "''A''" "''Z9''" "''Sheet1''" coffee]
  from t r ok have "snd (append_to_sheet ''Sheet1'' no_faults coffee)
      = Inr (''Sheet1'' @ ''!'' @ cell_of no_faults ''A'' @ '':'' @ cell_of no_faults ''H'')"
    "cells (fst (append_to_sheet ''Sheet1'' no_faults coffee)) (cell_of no_faults ''A'')
      = Some (Text (date coffee))"
    "cells (fst (append_to_sheet ''Sheet1'' no_faults coffee)) (cell_of no_faults ''G'')
      = Some (Number (amount coffee))"
    by blast+
  then have a: "snd (append_to_sheet ''Sheet1'' no_faults coffee) = Inr ''Sheet1!A1:H1''"
    "cells (fst (append_to_sheet ''Sheet1'' no_faults coffee)) ''A1'' = Some (Text ''24-10-2025'')"
    "cells (fst (append_to_sheet ''Sheet1'' no_faults coffee)) ''G1'' = Some (Number ''3.50'')"
    by (simp_all add: cell_of_no_faults v)
  from t have "cells (fst (append_to_sheet ''Sheet1'' no_faults coffee)) (cell_of no_faults ''B'')
      = cells no_faults (cell_of no_faults ''B'')"
    by blast
  then have b: "cells (fst (append_to_sheet ''Sheet1'' no_faults coffee)) ''B1'' = None"
    by (simp add: cell_of_no_faults c)
  from t z have "cells (fst (append_to_sheet ''Sheet1'' no_faults coffee)) ''Z9'' = cells no_faults ''Z9''"
    by blast
  then have d: "cells (fst (append_to_sheet ''Sheet1'' no_faults coffee)) ''Z9'' = None"
    by (simp add: c)
  from a b d r z show ?thesis by (simp add: f)
qed

lemma prefix_ok:
  assumes "k < length cm"
      and "\<forall>i<k. fault w (Update (fst (cm ! i) @ show_nat r)) = None"
  shows "\<forall>(c, v) \<in> set (take k cm). fault w (Update (c @ show_nat r)) = None"
proof (clarify)
  fix c v
  assume "(c, v) \<in> set (take k cm)"
  then obtain i where i: "i < length (take k cm)" "take k cm ! i = (c, v)"
    by (auto simp: in_set_conv_nth)
  with assms(1) have "i < k" "cm ! i = (c, v)" by simp_all
  with assms(2) show "fault w (Update (c @ show_nat r)) = None" by auto
qed

text \<open>
  Claim C1, as amended. The write is not all-or-nothing. A failure before the first cell
  update (authorisation, opening the worksheet, reading the rows, converting the amount)
  leaves the sheet as it was. When the cell updates are reached and the update number
  \<open>k\<close> (counting from 0, in the order A, C, D, G, H) is the first to fail, the \<open>k\<close>
  cells before it keep their new values, the call ends with \<^verbatim>\<open>ExpenseError\<close> and nothing is
  rolled back.
\<close>

theorem append_to_sheet_partial_row:
  "(\<not> reaches_updates w
      \<longrightarrow> fst (append_to_sheet ws w e) = w \<and> (\<exists>x. snd (append_to_sheet ws w e) = Inl x)) \<and>
   (reaches_updates w \<and> k < 5 \<and>
    (\<forall>i<k. fault w (Update (cell_of w (fst (column_mapping e ! i)))) = None) \<and>
    fault w (Update (cell_of w (fst (column_mapping e ! k)))) = Some x
      \<longrightarrow> append_to_sheet ws w e =
            (w\<lparr>cells := write_cells (take k (column_mapping e)) (next_row w) (cells w)\<rparr>,
             Inl (wrap_error x)) \<and>
          (\<forall>i<k. cells (fst (append_to_sheet ws w e)) (cell_of w (fst (column_mapping e ! i)))
                    = Some (snd (column_mapping e ! i))))"
proof -
  let ?cm = "column_mapping e"
  have len: "length ?cm = 5" by (simp add: column_mapping_def)
  have 2: "append_to_sheet ws w e =
            (w\<lparr>cells := write_cells (take k ?cm) (next_row w) (cells w)\<rparr>, Inl (wrap_error x)) \<and>
          (\<forall>i<k. cells (fst (append_to_sheet ws w e)) (cell_of w (fst (?cm ! i)))
                    = Some (snd (?cm ! i)))"
    if r: "reaches_updates w" and k: "k < 5"
      and ok: "\<forall>i<k. fault w (Update (cell_of w (fst (?cm ! i)))) = None"
      and bad: "fault w (Update (cell_of w (fst (?cm ! k)))) = Some x"
  proof -
    from k len have kl: "k < length ?cm" by simp
    obtain c v where cv: "?cm ! k = (c, v)" by (cases "?cm ! k")
    from kl cv have split: "?cm = take k ?cm @ (c, v) # drop (Suc k) ?cm"
      by (metis id_take_nth_drop)
    from ok have pre: "\<forall>(c, v) \<in> set (take k ?cm). fault w (Update (c @ show_nat (next_row w))) = None"
      by (intro prefix_ok [OF kl]) (simp add: cell_of_def)
    from bad cv have b: "fault w (Update (c @ show_nat (next_row w))) = Some x"
      by (simp add: cell_of_def)
    from update_cells_fails_at [OF pre b, of v "drop (Suc k) ?cm"] split
    have u: "update_cells w ?cm (next_row w)
               = (w\<lparr>cells := write_cells (take k ?cm) (next_row w) (cells w)\<rparr>, Some x)"
      by simp
    have eq: "append_to_sheet ws w e =
            (w\<lparr>cells := write_cells (take k ?cm) (next_row w) (cells w)\<rparr>, Inl (wrap_error x))"
      unfolding append_to_sheet_loop [OF r] u by simp
    have d: "distinct (map fst (take k ?cm))"
      unfolding take_map [symmetric] columns_of_mapping by (rule distinct_take) simp
    have "cells (fst (append_to_sheet ws w e)) (cell_of w (fst (?cm ! i))) = Some (snd (?cm ! i))"
      if "i < k" for i
    proof -
      from that kl have "(fst (?cm ! i), snd (?cm ! i)) \<in> set (take k ?cm)"
        by (metis in_set_conv_nth length_take min.absorb2 less_imp_le nth_take prod.collapse)
      from write_cells_written [OF d this] show ?thesis
        unfolding eq by (simp add: cell_of_def)
    qed
    with eq show ?thesis by blast
  qed
  from 2 append_to_sheet_before_loop [of w ws e] show ?thesis by blast
qed

theorem append_to_sheet_partial_row_witness:
  "reaches_updates quota_at_D2 \<and> (2 :: nat) < 5 \<and>
   fault quota_at_D2 (Update ''A2'') = None \<and> fault quota_at_D2 (Update ''C2'') = None \<and>
   fault quota_at_D2 (Update ''D2'') = Some (APIError ''quota'') \<and>
   snd (append_to_sheet ''Sheet1'' quota_at_D2 coffee)
     = Inl (ExpenseError ''Error al conectar con Google Sheets: quota'') \<and>
   cells (fst (append_to_sheet ''Sheet1'' quota_at_D2 coffee)) ''A2'' = Some (Text ''24-10-2025'') \<and>
   cells (fst (append_to_sheet ''Sheet1'' quota_at_D2 coffee)) ''C2'' = Some (Text ''Coffee'')"
proof -
  have r: "reaches_updates quota_at_D2"
    by (simp add: reaches_updates_def quota_at_D2_def)
  have n: "column_mapping coffee ! 0 = (''A'', Text ''24-10-2025'')"
    "column_mapping coffee ! Suc 0 = (''C'', Text ''Coffee'')"
    "column_mapping coffee ! 2 = (''D'', Text ''Almuerzo'')"
    by (simp_all add: column_mapping_def coffee_def)
  have f: "fault quota_at_D2 (Update ''A2'') = None" "fault quota_at_D2 (Update ''C2'') = None"
    "fault quota_at_D2 (Update ''D2'') = Some (APIError ''quota'')"
    by (simp_all add: quota_at_D2_def)
  have ok: "\<forall>i<2. fault quota_at_D2 (Update (cell_of quota_at_D2 (fst (column_mapping coffee ! i)))) = None"
  proof (intro allI impI)
    fix i :: nat
    assume "i < 2"
    then have "i = 0 \<or> i = 1" by auto
    then show "fault quota_at_D2 (Update (cell_of quota_at_D2 (fst (column_mapping coffee ! i)))) = None"
      using n f by (auto simp: cell_of_quota)
  qed
  have bad: "fault quota_at_D2 (Update (cell_of quota_at_D2 (fst (column_mapping coffee ! 2))))
               = Some (APIError ''quota'')"
    by (simp add: n f cell_of_quota)
  note t = append_to_sheet_partial_row [of quota_at_D2 "''Sheet1''" coffee 2 "APIError ''quota''"]
  have lt: "(2 :: nat) < 5" by simp
  from t r ok bad lt
  have eq: "append_to_sheet ''Sheet1'' quota_at_D2 coffee =
      (quota_at_D2\<lparr>cells := write_cells (take 2 (column_mapping coffee)) (next_row quota_at_D2)
                                (cells quota_at_D2)\<rparr>,
       Inl (wrap_error (APIError ''quota'')))"
    by blast
  from t r ok bad lt
  have w: "\<forall>i<2. cells (fst (append_to_sheet ''Sheet1'' quota_at_D2 coffee))
                     (cell_of quota_at_D2 (fst (column_mapping coffee ! i)))
                   = Some (snd (column_mapping coffee ! i))"
    by blast
  from w have "cells (fst (append_to_sheet ''Sheet1'' quota_at_D2 coffee))
                     (cell_of quota_at_D2 (fst (column_mapping coffee ! 0)))
                   = Some (snd (column_mapping coffee ! 0))"
    by (rule allE [of _ 0]) simp
  then have a: "cells (fst (append_to_sheet ''Sheet1'' quota_at_D2 coffee)) ''A2''
                  = Some (Text ''24-10-2025'')"
    by (simp add: n cell_of_quota)
  from w have "cells (fst (append_to_sheet ''Sheet1'' quota_at_D2 coffee))
                     (cell_of quota_at_D2 (fst (column_mapping coffee ! 1)))
                   = Some (snd (column_mapping coffee ! 1))"
    by (rule allE [of _ 1]) simp
  then have c: "cells (fst (append_to_sheet ''Sheet1'' quota_at_D2 coffee)) ''C2''
                  = Some (Text ''Coffee'')"
    by (simp add: n cell_of_quota)
  from eq have s: "snd (append_to_sheet ''Sheet1'' quota_at_D2 coffee)
     = Inl (ExpenseError ''Error al conectar con Google Sheets: quota'')"
    by simp
  from a c s r f show ?thesis by simp
qed

lemmas sheet_eval = append_to_sheet_def column_mapping_def next_row_def show_nat.simps
  digit_char_def

theorem append_to_sheet_atomic_counterexample:
  "snd (append_to_sheet ''Sheet1'' quota_at_D2 coffee)
     = Inl (ExpenseError ''Error al conectar con Google Sheets: quota'') \<and>
   cells quota_at_D2 ''A2'' = None \<and>
   cells (fst (append_to_sheet ''Sheet1'' quota_at_D2 coffee)) ''A2'' = Some (Text ''24-10-2025'') \<and>
   cells (fst (append_to_sheet ''Sheet1'' quota_at_D2 coffee)) ''C2'' = Some (Text ''Coffee'') \<and>
   cells (fst (append_to_sheet ''Sheet1'' quota_at_D2 coffee)) ''D2'' = None \<and>
   cells (fst (append_to_sheet ''Sheet1'' quota_at_D2 coffee)) ''G2'' = None \<and>
   cells (fst (append_to_sheet ''Sheet1'' quota_at_D2 coffee)) ''H2'' = None"
  by (simp add: sheet_eval quota_at_D2_def coffee_def)

lemma statusCode_error_response:
  "statusCode (error_response x) = (if is_ExpenseError x then 400 else 500)"
  by (cases x) (simp_all add: create_response_def)

lemma lambda_handler_cases:
  "(\<exists>x. parse_payload json_loads event = Inl x \<and>
        lambda_handler json_loads ws w event = (w, error_response x)) \<or>
   (\<exists>e x. parse_payload json_loads event = Inr e \<and> is_ExpenseError x \<and>
        snd (lambda_handler json_loads ws w event) = error_response x) \<or>
   (\<exists>e. parse_payload json_loads event = Inr e \<and>
        statusCode (snd (lambda_handler json_loads ws w event)) = 200)"
proof (cases "parse_payload json_loads event")
  case (Inl x)
  then show ?thesis by (simp add: lambda_handler_def)
next
  case (Inr e)
  obtain w' r where a: "append_to_sheet ws w e = (w', r)" by (cases "append_to_sheet ws w e")
  show ?thesis
  proof (cases r)
    case (Inl x)
    with a have "snd (append_to_sheet ws w e) = Inl x" by simp
    then have "is_ExpenseError x" by (rule append_to_sheet_error)
    moreover from Inr a Inl have "snd (lambda_handler json_loads ws w event) = error_response x"
      by (simp add: lambda_handler_def)
    ultimately show ?thesis using Inr by blast
  next
    case (Inr r')
    with \<open>parse_payload json_loads event = Inr e\<close> a
    have "statusCode (snd (lambda_handler json_loads ws w event)) = 200"
      by (simp add: lambda_handler_def create_response_def)
    with \<open>parse_payload json_loads event = Inr e\<close> show ?thesis by blast
  qed
qed

text \<open>
  Claim C2, as amended. For every event the handler returns one response, with status 200,
  400 or 500. A failure of the parser that is not an \<^verbatim>\<open>ExpenseError\<close> gives status 500 with
  the fixed body \<^verbatim>\<open>{"error": "Error interno del servidor"}\<close>, whatever the exception and
  its message were, and leaves the sheet alone; the sheet writer itself only ever fails with
  \<^verbatim>\<open>ExpenseError\<close>, so a response with status 500 is always that fixed response and always
  comes from such a parser failure.
\<close>

theorem lambda_handler_internal_error:
  "(parse_payload json_loads event = Inl x \<and> \<not> is_ExpenseError x
      \<longrightarrow> lambda_handler json_loads ws w event = (w, internal_error_response)) \<and>
   (snd (append_to_sheet ws w e) = Inl x \<longrightarrow> is_ExpenseError x) \<and>
   statusCode (snd (lambda_handler json_loads ws w event)) \<in> {200, 400, 500} \<and>
   (statusCode (snd (lambda_handler json_loads ws w event)) = 500
      \<longrightarrow> snd (lambda_handler json_loads ws w event) = internal_error_response \<and>
          (\<exists>y. parse_payload json_loads event = Inl y \<and> \<not> is_ExpenseError y)) \<and>
   body internal_error_response
     = ''{'' @ [CHR 0x22] @ ''error'' @ [CHR 0x22] @ '': '' @ [CHR 0x22]
         @ ''Error interno del servidor'' @ [CHR 0x22] @ ''}''"
proof -
  have 1: "parse_payload json_loads event = Inl x \<and> \<not> is_ExpenseError x
      \<longrightarrow> lambda_handler json_loads ws w event = (w, internal_error_response)"
    using lambda_handler_parse_error error_response_500 by fastforce
  have 2: "snd (append_to_sheet ws w e) = Inl x \<longrightarrow> is_ExpenseError x"
    using append_to_sheet_error by blast
  from lambda_handler_cases [of json_loads event ws w]
  have 3: "statusCode (snd (lambda_handler json_loads ws w event)) \<in> {200, 400, 500}"
    by (auto simp: statusCode_error_response split: if_splits)
  have 4: "statusCode (snd (lambda_handler json_loads ws w event)) = 500
      \<longrightarrow> snd (lambda_handler json_loads ws w event) = internal_error_response \<and>
          (\<exists>y. parse_payload json_loads event = Inl y \<and> \<not> is_ExpenseError y)"
  proof
    assume s: "statusCode (snd (lambda_handler json_loads ws w event)) = 500"
    from lambda_handler_cases [of json_loads event ws w] s
    obtain y where y: "parse_payload json_loads event = Inl y"
      "lambda_handler json_loads ws w event = (w, error_response y)"
      by (auto simp: statusCode_error_response split: if_splits)
    with s have n: "\<not> is_ExpenseError y"
      by (auto simp: statusCode_error_response split: if_splits)
    with y error_response_500 [OF n]
    show "snd (lambda_handler json_loads ws w event) = internal_error_response \<and>
          (\<exists>y. parse_payload json_loads event = Inl y \<and> \<not> is_ExpenseError y)"
      by auto
  qed
  have 5: "body internal_error_response
     = ''{'' @ [CHR 0x22] @ ''error'' @ [CHR 0x22] @ '': '' @ [CHR 0x22]
         @ ''Error interno del servidor'' @ [CHR 0x22] @ ''}''"
    by (simp add: internal_error_response_def)
  from 1 2 3 4 5 show ?thesis by blast
qed

lemmas payload_eval = parse_payload_def payload_body_def payload_fields_def

theorem lambda_handler_internal_error_witness:
  "(\<exists>m. parse_payload (\<lambda>s. Inr JNull) (JObject [(''body'', JNull)]) = Inl (AttributeError m)) \<and>
   lambda_handler (\<lambda>s. Inr JNull) ''Sheet1'' no_faults (JObject [(''body'', JNull)])
     = (no_faults, internal_error_response) \<and>
   statusCode (snd (lambda_handler (\<lambda>s. Inr JNull) ''Sheet1'' no_faults (JObject [(''body'', JNull)])))
     = 500"
proof -
  let ?l = "\<lambda>s :: string. (Inr JNull :: exn + json)"
  let ?m = "[CHR 0x27] @ ''NoneType'' @ [CHR 0x27] @ '' object has no attribute ''
              @ [CHR 0x27] @ ''get'' @ [CHR 0x27]"
  have p: "parse_payload ?l (JObject [(''body'', JNull)]) = Inl (AttributeError ?m)"
    by (simp add: payload_eval)
  have n: "\<not> is_ExpenseError (AttributeError ?m)" by simp
  from lambda_handler_internal_error
    [of ?l "JObject [(''body'', JNull)]" "AttributeError ?m" "''Sheet1''" no_faults coffee] p n
  have h: "lambda_handler ?l ''Sheet1'' no_faults (JObject [(''body'', JNull)])
     = (no_faults, internal_error_response)"
    by blast
  then have "statusCode (snd (lambda_handler ?l ''Sheet1'' no_faults (JObject [(''body'', JNull)])))
     = 500"
    by (simp add: internal_error_response_def)
  with p h show ?thesis by blast
qed

theorem lambda_handler_500_body_counterexample:
  "statusCode (snd (lambda_handler (\<lambda>s. Inr JNull) ''Sheet1'' no_faults (JObject [(''body'', JNull)])))
     = 500 \<and>
   body (snd (lambda_handler (\<lambda>s. Inr JNull) ''Sheet1'' no_faults (JObject [(''body'', JNull)])))
     = ''{'' @ [CHR 0x22] @ ''error'' @ [CHR 0x22] @ '': '' @ [CHR 0x22]
         @ ''Error interno del servidor'' @ [CHR 0x22] @ ''}'' \<and>
   body (snd (lambda_handler (\<lambda>s. Inr JNull) ''Sheet1'' no_faults (JObject [(''body'', JNull)])))
     \<noteq> spec_internal_error_body"
  by (simp add: lambda_handler_def payload_eval create_response_def dumps_str_def json_escape_def
      spec_internal_error_body_def)

lemma dash_after_Nil [simp]: "dash_after [] = []"
  by (simp add: dash_after_def)

lemma dash_after_Cons:
  "dash_after ((d, r1) # cands) = map (\<lambda>r2. (d, r2)) (re_lit CHR ''-'' r1) @ dash_after cands"
  by (simp add: dash_after_def)



lemma digit_val_simps [simp]:
  "digit_val CHR ''0'' = 0" "digit_val CHR ''1'' = 1" "digit_val CHR ''2'' = 2"
  "digit_val CHR ''3'' = 3" "digit_val CHR ''4'' = 4" "digit_val CHR ''5'' = 5"
  "digit_val CHR ''6'' = 6" "digit_val CHR ''7'' = 7" "digit_val CHR ''8'' = 8"
  "digit_val CHR ''9'' = 9"
  by (simp_all add: digit_val_def)



lemma is_digit_literals [simp]:
  "is_digit CHR ''0''" "is_digit CHR ''1''" "is_digit CHR ''2''" "is_digit CHR ''3''"
  "is_digit CHR ''4''" "is_digit CHR ''5''" "is_digit CHR ''6''" "is_digit CHR ''7''"
  "is_digit CHR ''8''" "is_digit CHR ''9''" "\<not> is_digit CHR ''-''" "\<not> is_digit CHR '' ''"
  by (simp_all add: is_digit_def)











lemma int_of_digits_simps [simp]:
  "int_of_digits [] = 0"
  "int_of_digits [c1] = digit_val c1"
  "int_of_digits [c1, c2] = 10 * digit_val c1 + digit_val c2"
  by (simp_all add: int_of_digits_def)



lemma re_lit_simps [simp]:
  "re_lit c [] = []"
  "re_lit c (x # r) = (if x = c then [r] else [])"
  by (simp_all add: re_lit_def)

lemma dash_after_simps [simp]:
  "dash_after ((d, []) # cands) = dash_after cands"
  "dash_after ((d, x # r) # cands) = (if x = CHR ''-'' then (d, r) # dash_after cands else dash_after cands)"
  by (simp_all add: dash_after_Cons)

lemma dash_after_append [simp]:
  "dash_after (xs @ ys) = dash_after xs @ dash_after ys"
  by (simp add: dash_after_def)

lemma dash_after_if [simp]:
  "dash_after (if b then xs else ys) = (if b then dash_after xs else dash_after ys)"
  by simp

lemma re_m_empty [simp]: "re_m [] = []"
  by (simp add: re_m_def)




lemma re_d_empty [simp]: "re_d [] = []"
  by (simp add: re_d_def)










lemma year_exact:
  "(4 \<le> length Y \<and> list_all is_digit (take 4 Y) \<and> drop 4 Y = []) \<longleftrightarrow> spec_year_text Y"
  by (auto simp: spec_year_text_def)









end
